theory Spec2Isabelle
  imports Main "HOL-Library.AList" "HOL-Library.Sublist" "HOL-Library.Char_ord" "HOL-Library.List_Lexorder"
begin

section \<open>Data model (src/types/index.ts)\<close>

text \<open>
  The interfaces of \<^verbatim>\<open>types/index.ts\<close> as records. The field \<^verbatim>\<open>id\<close> of
  \<^verbatim>\<open>Category\<close> and of \<^verbatim>\<open>Post\<close>, and the field \<^verbatim>\<open>name\<close> of \<^verbatim>\<open>Author\<close> and of
  \<^verbatim>\<open>Category\<close>, are prefixed with the interface they belong to. JavaScript strings are
  modelled as \<^typ>\<open>string\<close>; the program only compares them for equality, joins them with
  a comma and splits them at commas.
\<close>

record author =
  author_name :: string
  avatar :: string

record category =
  category_id :: string
  category_name :: string

record post =
  post_id :: string
  title :: string
  publishDate :: string
  author :: author
  summary :: string
  categories :: "category list"

text \<open>
  \<^verbatim>\<open>CategoryWithCount extends Category\<close>. The optional field \<^verbatim>\<open>ids\<close> is set by every
  object the aggregation in \<^verbatim>\<open>fetchPosts\<close> creates.
\<close>

record categoryWithCount = category +
  count :: nat
  ids :: "string list"

section \<open>The array and string methods the components call\<close>

text \<open>\<^verbatim>\<open>Array.prototype.includes\<close> and \<^verbatim>\<open>Array.prototype.some\<close>.\<close>

fun includes_js :: "'a list \<Rightarrow> 'a \<Rightarrow> bool" where
  "includes_js [] v = False"
| "includes_js (x # xs) v = (x = v \<or> includes_js xs v)"

fun some :: "'a list \<Rightarrow> ('a \<Rightarrow> bool) \<Rightarrow> bool" where
  "some [] p = False"
| "some (x # xs) p = (p x \<or> some xs p)"

text \<open>
  \<^verbatim>\<open>Array.prototype.slice(start, end)\<close>: a negative index counts from the end of the
  array, and both indices are clamped to the array.
\<close>

definition slice :: "'a list \<Rightarrow> int \<Rightarrow> int \<Rightarrow> 'a list" where
  "slice xs start fin =
     (let len = int (length xs);
          k = (if start < 0 then max (len + start) 0 else min start len);
          final = (if fin < 0 then max (len + fin) 0 else min fin len)
      in take (nat (final - k)) (drop (nat k) xs))"

text \<open>\<^verbatim>\<open>Array.prototype.join(sep)\<close> and \<^verbatim>\<open>String.prototype.split(sep)\<close> for a separator of
  one character.\<close>

fun join :: "string list \<Rightarrow> string \<Rightarrow> string" where
  "join [] sep = []"
| "join [x] sep = x"
| "join (x # y # ys) sep = x @ sep @ join (y # ys) sep"

fun split :: "string \<Rightarrow> char \<Rightarrow> string list" where
  "split [] sep = [[]]"
| "split (c # cs) sep =
     (if c = sep then [] # split cs sep
      else (case split cs sep of [] \<Rightarrow> [[c]] | w # ws \<Rightarrow> (c # w) # ws))"

section \<open>Filter and pagination (App.tsx, filterAndPaginatePosts)\<close>

definition POSTS_PER_PAGE :: nat where
  "POSTS_PER_PAGE = 6"

text \<open>Lines 122 to 132: the category filter, by category name.\<close>

definition filterPosts :: "post list \<Rightarrow> string list \<Rightarrow> post list" where
  "filterPosts allPosts selectedCategories =
     (if length selectedCategories > 0
      then filter (\<lambda>post. some (categories post)
                    (\<lambda>category. includes_js selectedCategories (category_name category))) allPosts
      else allPosts)"

text \<open>Lines 135 and 136: the posts up to the current page, for a page size.\<close>

definition paginate :: "post list \<Rightarrow> nat \<Rightarrow> nat \<Rightarrow> post list" where
  "paginate filtered pageSize currentPage =
     (let endIndex = int currentPage * int pageSize in slice filtered 0 endIndex)"

text \<open>
  \<^verbatim>\<open>Array.prototype.sort(compareFn)\<close>: the sort is stable, and for a consistent
  comparator the stable sorted arrangement is unique; it is computed here by inserting
  each element, from the last to the first, in front of the first element it does not
  follow.
\<close>

fun insert_sorted :: "('a \<Rightarrow> 'a \<Rightarrow> int) \<Rightarrow> 'a \<Rightarrow> 'a list \<Rightarrow> 'a list" where
  "insert_sorted compareFn x [] = [x]"
| "insert_sorted compareFn x (y # ys) =
     (if compareFn x y \<le> 0 then x # y # ys else y # insert_sorted compareFn x ys)"

definition sort_js :: "'a list \<Rightarrow> ('a \<Rightarrow> 'a \<Rightarrow> int) \<Rightarrow> 'a list" where
  "sort_js xs compareFn = foldr (insert_sorted compareFn) xs []"

section \<open>Category aggregation (App.tsx, fetchPosts, lines 83 to 106)\<close>

text \<open>
  A JavaScript \<^verbatim>\<open>Map\<close> keeps its keys in insertion order: it is an association list in
  which \<^verbatim>\<open>set\<close> replaces the value of a key that is present, in place, and appends a key
  that is absent (\<^const>\<open>AList.update\<close>); \<^verbatim>\<open>has\<close> and \<^verbatim>\<open>get\<close> are \<^const>\<open>map_of\<close>, and
  \<^verbatim>\<open>values()\<close> lists the second components. The objects in the map are mutated through
  \<^verbatim>\<open>get\<close>, which is an update of the entry.
\<close>

type_synonym 'v js_map = "(string \<times> 'v) list"

text \<open>Lines 86 to 100: one category of one post.\<close>

definition addCategory :: "categoryWithCount js_map \<Rightarrow> category \<Rightarrow> categoryWithCount js_map" where
  "addCategory categoryMap category =
     (case map_of categoryMap (category_name category) of
        Some entry \<Rightarrow>
          (let counted = entry\<lparr>count := count entry + 1\<rparr>;
               tracked = (if \<not> includes_js (ids counted) (category_id category)
                          then counted\<lparr>ids := ids counted @ [category_id category]\<rparr>
                          else counted)
           in AList.update (category_name category) tracked categoryMap)
      | None \<Rightarrow>
          AList.update (category_name category)
            \<lparr>category_id = category_name category, category_name = category_name category,
             count = 1, ids = [category_id category]\<rparr> categoryMap)"

text \<open>Lines 83 to 102: the two nested \<^verbatim>\<open>forEach\<close> loops, from an empty map.\<close>

definition buildCategoryMap :: "post list \<Rightarrow> categoryWithCount js_map" where
  "buildCategoryMap posts =
     foldl (\<lambda>categoryMap post. foldl addCategory categoryMap (categories post)) [] posts"

text \<open>
  Lines 105 and 106. \<^verbatim>\<open>String.prototype.localeCompare\<close> is the collation of the host's
  locale; it is a parameter of the model, a function to the integers whose sign is the
  order.
\<close>

definition uniqueCategories :: "(string \<Rightarrow> string \<Rightarrow> int) \<Rightarrow> post list \<Rightarrow> categoryWithCount list" where
  "uniqueCategories localeCompare posts =
     sort_js (map snd (buildCategoryMap posts))
       (\<lambda>a b. localeCompare (category_name a) (category_name b))"

section \<open>PostList (unnamed/part_000)\<close>

text \<open>What \<^verbatim>\<open>PostList\<close> renders, in order; the button carries its \<^verbatim>\<open>disabled\<close> flag.\<close>

datatype post_list_element = LoadingSpinner | PostsGrid "post list" | LoadMoreButton bool | EmptyState

definition PostList :: "post list \<Rightarrow> bool \<Rightarrow> bool \<Rightarrow> post_list_element list" where
  "PostList posts loading hasMore =
     (if loading \<and> length posts = 0 then [LoadingSpinner] else []) @
     (if length posts > 0
      then PostsGrid posts # (if hasMore then [LoadMoreButton loading] else [])
      else []) @
     (if \<not> loading \<and> length posts = 0 then [EmptyState] else [])"

section \<open>The state of the App component and its effects\<close>

datatype js_error = NetworkError | SyntaxError

text \<open>What the component does to the outside: the requests it sends and what it logs.\<close>

datatype io_event = Fetch string | ConsoleError string js_error

text \<open>
  The outcome of \<^verbatim>\<open>fetch\<close> followed by \<^verbatim>\<open>response.json()\<close>: the request fails, the body
  does not parse, or the payload is an \<^verbatim>\<open>ApiResponse\<close>.
\<close>

datatype fetch_result = NetworkFailure | ParseFailure | Response "post list"

text \<open>
  The \<^verbatim>\<open>useState\<close> cells of \<^verbatim>\<open>App\<close> and the URL query (\<^verbatim>\<open>useSearchParams\<close>), a list of
  key and value pairs. The state cell \<^verbatim>\<open>categories\<close> is named \<open>categories_state\<close>.
\<close>

record app_state =
  searchParams :: "(string \<times> string) list"
  allPosts :: "post list"
  displayedPosts :: "post list"
  categories_state :: "categoryWithCount list"
  selectedCategories :: "string list"
  loading :: bool
  currentPage :: nat
  io :: "io_event list"

definition initial_state :: "(string \<times> string) list \<Rightarrow> app_state" where
  "initial_state query =
     \<lparr>searchParams = query, allPosts = [], displayedPosts = [], categories_state = [],
      selectedCategories = [], loading = True, currentPage = 1, io = []\<rparr>"

text \<open>Lines 43 to 49: the selection is seeded from the URL once; an empty string is falsy.\<close>

definition initSelectedCategories :: "app_state \<Rightarrow> app_state" where
  "initSelectedCategories s =
     (case map_of (searchParams s) ''categories'' of
        Some categoriesFromUrl \<Rightarrow>
          (if categoriesFromUrl \<noteq> []
           then s\<lparr>selectedCategories := split categoriesFromUrl CHR '',''\<rparr> else s)
      | None \<Rightarrow> s)"

text \<open>Lines 75 to 109: the body of \<^verbatim>\<open>try\<close>, which throws before any state is set or ends.\<close>

definition fetchPosts_try :: "(string \<Rightarrow> string \<Rightarrow> int) \<Rightarrow> fetch_result \<Rightarrow> app_state \<Rightarrow> js_error + app_state" where
  "fetchPosts_try localeCompare r s =
     (case r of
        NetworkFailure \<Rightarrow> Inl NetworkError
      | ParseFailure \<Rightarrow> Inl SyntaxError
      | Response posts \<Rightarrow>
          Inr (s\<lparr>allPosts := posts,
                 categories_state := uniqueCategories localeCompare posts,
                 loading := False\<rparr>))"

text \<open>
  Lines 72 to 114: \<^verbatim>\<open>fetchPosts\<close>. Its \<^verbatim>\<open>catch\<close> handles every error of the body, logs
  it and clears the loading flag, so the function always ends with a state.
\<close>

definition fetchPosts :: "(string \<Rightarrow> string \<Rightarrow> int) \<Rightarrow> fetch_result \<Rightarrow> app_state \<Rightarrow> app_state" where
  "fetchPosts localeCompare r s =
     (let s1 = s\<lparr>loading := True, io := io s @ [Fetch ''/api/posts'']\<rparr>
      in case fetchPosts_try localeCompare r s1 of
           Inr s2 \<Rightarrow> s2
         | Inl error \<Rightarrow>
             s1\<lparr>io := io s1 @ [ConsoleError ''Error fetching posts:'' error],
                loading := False\<rparr>)"

text \<open>Lines 121 to 139.\<close>

definition filterAndPaginatePosts :: "app_state \<Rightarrow> app_state" where
  "filterAndPaginatePosts s =
     (let filtered = filterPosts (allPosts s) (selectedCategories s);
          paginated = paginate filtered POSTS_PER_PAGE (currentPage s)
      in s\<lparr>displayedPosts := paginated\<rparr>)"

text \<open>Lines 146 to 168.\<close>

definition handleCategoryToggle :: "string \<Rightarrow> app_state \<Rightarrow> app_state" where
  "handleCategoryToggle categoryId s =
     (let prev = selectedCategories s;
          newCategories = (if includes_js prev categoryId
                           then filter (\<lambda>i. i \<noteq> categoryId) prev
                           else prev @ [categoryId])
      in s\<lparr>selectedCategories := newCategories,
           searchParams := (if length newCategories > 0
                            then [(''categories'', join newCategories '','')] else []),
           currentPage := 1\<rparr>)"

text \<open>Lines 174 to 178.\<close>

definition handleClearFilters :: "app_state \<Rightarrow> app_state" where
  "handleClearFilters s = s\<lparr>selectedCategories := [], currentPage := 1, searchParams := []\<rparr>"

text \<open>Lines 183 to 185.\<close>

definition handleLoadMore :: "app_state \<Rightarrow> app_state" where
  "handleLoadMore s = s\<lparr>currentPage := currentPage s + 1\<rparr>"

text \<open>Lines 190 to 201.\<close>

definition getFilteredPostsCount :: "app_state \<Rightarrow> nat" where
  "getFilteredPostsCount s =
     (if length (selectedCategories s) = 0 then length (allPosts s)
      else length (filter (\<lambda>post. some (categories post)
                      (\<lambda>category. includes_js (selectedCategories s) (category_id category)))
                    (allPosts s)))"

definition hasMorePosts :: "app_state \<Rightarrow> bool" where
  "hasMorePosts s = (length (displayedPosts s) < getFilteredPostsCount s)"

text \<open>
  The user's actions. Each handler changes \<^verbatim>\<open>selectedCategories\<close> or \<^verbatim>\<open>currentPage\<close>,
  the dependencies of the effect of lines 63 to 66, so the effect runs after it.
\<close>

datatype action = Toggle string | Clear | LoadMore

fun handle :: "action \<Rightarrow> app_state \<Rightarrow> app_state" where
  "handle (Toggle categoryId) s = handleCategoryToggle categoryId s"
| "handle Clear s = handleClearFilters s"
| "handle LoadMore s = handleLoadMore s"

definition step :: "app_state \<Rightarrow> action \<Rightarrow> app_state" where
  "step s a = filterAndPaginatePosts (handle a s)"

definition run :: "app_state \<Rightarrow> action list \<Rightarrow> app_state" where
  "run s actions = foldl step s actions"

text \<open>
  Lines 43 to 66: the three effects of the first render, for the URL query the page is
  opened with and the outcome of the request.
\<close>

definition mount :: "(string \<Rightarrow> string \<Rightarrow> int) \<Rightarrow> (string \<times> string) list \<Rightarrow> fetch_result \<Rightarrow> app_state" where
  "mount localeCompare query r =
     filterAndPaginatePosts
       (fetchPosts localeCompare r (initSelectedCategories (initial_state query)))"

text \<open>Lines 232 to 237 of App.tsx: the props \<^verbatim>\<open>App\<close> passes to \<^verbatim>\<open>PostList\<close>.\<close>

definition App_PostList :: "app_state \<Rightarrow> post_list_element list" where
  "App_PostList s = PostList (displayedPosts s) (loading s) (hasMorePosts s)"

section \<open>PostDetail (unnamed/part_001)\<close>

record detail_state =
  detail_post :: "post option"
  detail_loading :: bool

text \<open>Lines 110 to 116: the body of \<^verbatim>\<open>try\<close>; \<open>id_param\<close> is the route parameter \<^verbatim>\<open>id\<close>
  of \<^verbatim>\<open>useParams\<close>, which may be undefined.\<close>

definition fetchPost_try :: "string option \<Rightarrow> fetch_result \<Rightarrow> detail_state \<Rightarrow> js_error + detail_state" where
  "fetchPost_try id_param r s =
     (case r of
        NetworkFailure \<Rightarrow> Inl NetworkError
      | ParseFailure \<Rightarrow> Inl SyntaxError
      | Response posts \<Rightarrow>
          (let foundPost = find (\<lambda>p. Some (post_id p) = id_param) posts
           in Inr (s\<lparr>detail_post := foundPost, detail_loading := False\<rparr>)))"

text \<open>Lines 107 to 121: \<^verbatim>\<open>fetchPost\<close>, with its \<^verbatim>\<open>catch\<close> (the log is left out).\<close>

definition fetchPost :: "string option \<Rightarrow> fetch_result \<Rightarrow> detail_state \<Rightarrow> detail_state" where
  "fetchPost id_param r s =
     (let s1 = s\<lparr>detail_loading := True\<rparr>
      in case fetchPost_try id_param r s1 of
           Inr s2 \<Rightarrow> s2
         | Inl error \<Rightarrow> s1\<lparr>detail_loading := False\<rparr>)"

text \<open>
  Lines 141 to 247: the three returns of the component. The not-found view and the
  post view carry the path their back button navigates to.
\<close>

datatype detail_view = LoadingView | NotFoundView string | PostView string post

definition PostDetail :: "detail_state \<Rightarrow> detail_view" where
  "PostDetail s =
     (if detail_loading s then LoadingView
      else case detail_post s of
             None \<Rightarrow> NotFoundView ''/''
           | Some p \<Rightarrow> PostView ''/'' p)"

section \<open>Example data\<close>

text \<open>
  A comparator for the examples, by the order of the characters' codes, and the three
  posts of the scenario: two posts in the category Tech under two identifiers and one in
  Life.
\<close>

definition codeUnitCompare :: "string \<Rightarrow> string \<Rightarrow> int" where
  "codeUnitCompare a b = (if a < b then - 1 else if a = b then 0 else 1)"

definition example_post :: "string \<Rightarrow> category list \<Rightarrow> post" where
  "example_post pid cs =
     \<lparr>post_id = pid, title = ''Title'', publishDate = ''2025-01-01T00:00:00Z'',
      author = \<lparr>author_name = ''Author'', avatar = ''avatar.png''\<rparr>,
      summary = ''Summary'', categories = cs\<rparr>"

definition scenario_posts :: "post list" where
  "scenario_posts =
     [example_post ''1'' [\<lparr>category_id = ''a'', category_name = ''Tech''\<rparr>],
      example_post ''2'' [\<lparr>category_id = ''b'', category_name = ''Tech''\<rparr>],
      example_post ''3'' [\<lparr>category_id = ''c'', category_name = ''Life''\<rparr>]]"

text \<open>Seven posts in the category Tech, whose identifier is not its name.\<close>

definition seven_tech_posts :: "post list" where
  "seven_tech_posts =
     map (\<lambda>pid. example_post pid [\<lparr>category_id = ''c1'', category_name = ''Tech''\<rparr>])
       [''1'', ''2'', ''3'', ''4'', ''5'', ''6'', ''7'']"

text \<open>The page opened with no query, the seven posts fetched, and Tech ticked.\<close>

definition tech_selected :: app_state where
  "tech_selected = step (mount codeUnitCompare [] (Response seven_tech_posts)) (Toggle ''Tech'')"

text \<open>The page opened with the categories a and b in the URL, before any post arrives.\<close>

definition opened_with_a_b :: app_state where
  "opened_with_a_b = initSelectedCategories (initial_state [(''categories'', ''a,b'')])"

text \<open>The page opened with the category a twice in the URL; the request returns no post.\<close>

definition opened_with_a_a :: app_state where
  "opened_with_a_a = mount codeUnitCompare [(''categories'', ''a,a'')] (Response [])"

section \<open>Facts about the array methods\<close>

lemma includes_iff: "includes_js xs v \<longleftrightarrow> v \<in> set xs"
  by (induction xs) auto

lemma some_iff: "some xs p \<longleftrightarrow> (\<exists>x \<in> set xs. p x)"
  by (induction xs) auto

lemma slice_from_start: "0 \<le> e \<Longrightarrow> slice xs 0 e = take (nat e) xs"
  by (auto simp: slice_def Let_def min_def)

lemma paginate_take: "paginate posts pageSize n = take (n * pageSize) posts"
  by (simp add: paginate_def slice_from_start nat_mult_distrib)

section \<open>Facts about the aggregation and the sort\<close>

lemma foldl_nested_concat:
  "foldl (\<lambda>acc x. foldl f acc (g x)) a xs = foldl f a (concat (map g xs))"
  by (induction xs arbitrary: a) simp_all

lemma buildCategoryMap_concat:
  "buildCategoryMap posts = foldl addCategory [] (concat (map categories posts))"
  by (simp add: buildCategoryMap_def foldl_nested_concat)

lemma map_of_addCategory:
  "map_of (addCategory m c) k =
     (if k = category_name c
      then Some (case map_of m k of
                   None \<Rightarrow> \<lparr>category_id = k, category_name = k, count = 1, ids = [category_id c]\<rparr>
                 | Some e \<Rightarrow> e\<lparr>count := count e + 1,
                               ids := (if category_id c \<in> set (ids e) then ids e
                                       else ids e @ [category_id c])\<rparr>)
      else map_of m k)"
  by (simp add: addCategory_def update_conv' includes_iff Let_def split: option.split)

lemma keys_addCategory:
  "fst ` set (addCategory m c) = insert (category_name c) (fst ` set m)"
  by (simp add: addCategory_def dom_update Let_def split: option.split)

lemma distinct_addCategory:
  "distinct (map fst m) \<Longrightarrow> distinct (map fst (addCategory m c))"
  by (simp add: addCategory_def distinct_update Let_def split: option.split)

lemma keys_foldl_addCategory:
  "fst ` set (foldl addCategory [] cs) = category_name ` set cs"
  by (induction cs rule: rev_induct) (simp_all add: keys_addCategory)

lemma distinct_foldl_addCategory:
  "distinct (map fst (foldl addCategory [] cs))"
  by (induction cs rule: rev_induct) (simp_all add: distinct_addCategory)

lemma entry_foldl_addCategory:
  "map_of (foldl addCategory [] cs) k = Some e \<Longrightarrow>
     category_name e = k \<and> category_id e = k \<and> distinct (ids e)
     \<and> set (ids e) = {category_id c | c. c \<in> set cs \<and> category_name c = k}
     \<and> count e = length (filter (\<lambda>c. category_name c = k) cs)"
proof (induction cs arbitrary: e rule: rev_induct)
  case Nil
  then show ?case by simp
next
  case (snoc c cs)
  let ?m = "foldl addCategory [] cs"
  show ?case
  proof (cases "k = category_name c")
    case False
    with snoc.prems have "map_of ?m k = Some e"
      by (simp add: map_of_addCategory)
    from snoc.IH [OF this] False show ?thesis by auto
  next
    case True
    show ?thesis
    proof (cases "map_of ?m k")
      case None
      then have "k \<notin> fst ` set ?m"
        by (simp add: map_of_eq_None_iff)
      then have absent: "k \<notin> category_name ` set cs"
        by (simp add: keys_foldl_addCategory)
      from snoc.prems True None
      have e: "e = \<lparr>category_id = k, category_name = k, count = 1, ids = [category_id c]\<rparr>"
        by (simp add: map_of_addCategory)
      from absent have "filter (\<lambda>c. category_name c = k) cs = []"
        by (auto simp: filter_empty_conv)
      moreover from absent have "\<And>c'. c' \<in> set cs \<Longrightarrow> category_name c' \<noteq> k"
        by blast
      ultimately show ?thesis
        unfolding e using True by auto
    next
      case (Some e0)
      from snoc.prems True Some
      have e: "e = e0\<lparr>count := count e0 + 1,
                      ids := (if category_id c \<in> set (ids e0) then ids e0
                              else ids e0 @ [category_id c])\<rparr>"
        by (simp add: map_of_addCategory)
      from snoc.IH [OF Some] True show ?thesis
        unfolding e by auto
    qed
  qed
qed

lemma set_insert_sorted: "set (insert_sorted cmp x ys) = insert x (set ys)"
  by (induction ys) auto

lemma set_sort_js: "set (sort_js xs cmp) = set xs"
  by (induction xs) (simp_all add: sort_js_def set_insert_sorted)

lemma sum_insert_sorted:
  "sum_list (map f (insert_sorted cmp x ys)) = f x + sum_list (map f ys)"
  for f :: "'a \<Rightarrow> nat"
  by (induction ys) auto

lemma sum_sort_js: "sum_list (map f (sort_js xs cmp)) = sum_list (map f xs)"
  for f :: "'a \<Rightarrow> nat"
  by (induction xs) (simp_all add: sort_js_def sum_insert_sorted)

lemma distinct_insert_sorted:
  "distinct (map f (insert_sorted cmp x ys)) \<longleftrightarrow> f x \<notin> f ` set ys \<and> distinct (map f ys)"
  by (induction ys) (auto simp: set_insert_sorted)

lemma distinct_sort_js: "distinct (map f (sort_js xs cmp)) \<longleftrightarrow> distinct (map f xs)"
  by (induction xs) (simp_all add: sort_js_def distinct_insert_sorted set_sort_js [unfolded sort_js_def])

lemma sorted_insert_sorted:
  assumes total: "\<And>a b. cmp a b \<le> 0 \<or> cmp b a \<le> 0"
    and trans: "\<And>a b c. cmp a b \<le> 0 \<Longrightarrow> cmp b c \<le> 0 \<Longrightarrow> cmp a c \<le> 0"
  shows "sorted_wrt (\<lambda>a b. cmp a b \<le> 0) ys \<Longrightarrow> sorted_wrt (\<lambda>a b. cmp a b \<le> 0) (insert_sorted cmp x ys)"
proof (induction ys)
  case Nil
  then show ?case by simp
next
  case (Cons y ys)
  show ?case
  proof (cases "cmp x y \<le> 0")
    case True
    with Cons.prems trans show ?thesis by auto
  next
    case False
    with total have "cmp y x \<le> 0" by blast
    with False Cons show ?thesis
      by (auto simp: set_insert_sorted)
  qed
qed

lemma sorted_sort_js:
  assumes "\<And>a b. cmp a b \<le> 0 \<or> cmp b a \<le> 0"
    and "\<And>a b c. cmp a b \<le> 0 \<Longrightarrow> cmp b c \<le> 0 \<Longrightarrow> cmp a c \<le> 0"
  shows "sorted_wrt (\<lambda>a b. cmp a b \<le> 0) (sort_js xs cmp)"
  by (induction xs) (simp_all add: sort_js_def sorted_insert_sorted [OF assms])

lemma sum_update_absent:
  "map_of m k = None \<Longrightarrow>
     sum_list (map (\<lambda>p. g (snd p)) (AList.update k v m)) = sum_list (map (\<lambda>p. g (snd p)) m) + g v"
  for g :: "'v \<Rightarrow> nat"
  by (induction m) (auto split: if_splits)

lemma sum_update_present:
  "map_of m k = Some e \<Longrightarrow>
     sum_list (map (\<lambda>p. g (snd p)) (AList.update k v m)) + g e = sum_list (map (\<lambda>p. g (snd p)) m) + g v"
  for g :: "'v \<Rightarrow> nat"
  by (induction m) (auto split: if_splits)

lemma sum_addCategory:
  "sum_list (map (\<lambda>p. count (snd p)) (addCategory m c)) = sum_list (map (\<lambda>p. count (snd p)) m) + 1"
proof (cases "map_of m (category_name c)")
  case None
  then show ?thesis
    by (simp add: addCategory_def sum_update_absent)
next
  case (Some e)
  let ?v = "e\<lparr>count := count e + 1,
              ids := (if category_id c \<in> set (ids e) then ids e else ids e @ [category_id c])\<rparr>"
  have "addCategory m c = AList.update (category_name c) ?v m"
    using Some by (simp add: addCategory_def includes_iff Let_def)
  moreover have "sum_list (map (\<lambda>p. count (snd p)) (AList.update (category_name c) ?v m)) + count e
      = sum_list (map (\<lambda>p. count (snd p)) m) + count ?v"
    by (rule sum_update_present [OF Some])
  ultimately show ?thesis by simp
qed

lemma sum_foldl_addCategory:
  "sum_list (map (\<lambda>p. count (snd p)) (foldl addCategory [] cs)) = length cs"
  by (induction cs rule: rev_induct) (simp_all add: sum_addCategory)

lemma codeUnitCompare_total: "codeUnitCompare a b \<le> 0 \<or> codeUnitCompare b a \<le> 0"
  by (auto simp: codeUnitCompare_def)

lemma codeUnitCompare_trans:
  "codeUnitCompare a b \<le> 0 \<Longrightarrow> codeUnitCompare b c \<le> 0 \<Longrightarrow> codeUnitCompare a c \<le> 0"
  by (auto simp: codeUnitCompare_def split: if_splits)

lemma scenario_aggregation:
  "uniqueCategories codeUnitCompare scenario_posts =
     [\<lparr>category_id = ''Life'', category_name = ''Life'', count = 1, ids = [''c'']\<rparr>,
      \<lparr>category_id = ''Tech'', category_name = ''Tech'', count = 2, ids = [''a'', ''b'']\<rparr>]"
  by (simp add: uniqueCategories_def buildCategoryMap_def addCategory_def scenario_posts_def
      example_post_def sort_js_def codeUnitCompare_def)

section \<open>Facts about the state transitions\<close>

lemma filterAndPaginatePosts_fields:
  "displayedPosts (filterAndPaginatePosts s) =
     paginate (filterPosts (allPosts s) (selectedCategories s)) POSTS_PER_PAGE (currentPage s)"
  "allPosts (filterAndPaginatePosts s) = allPosts s"
  "selectedCategories (filterAndPaginatePosts s) = selectedCategories s"
  "searchParams (filterAndPaginatePosts s) = searchParams s"
  "categories_state (filterAndPaginatePosts s) = categories_state s"
  "loading (filterAndPaginatePosts s) = loading s"
  "currentPage (filterAndPaginatePosts s) = currentPage s"
  "io (filterAndPaginatePosts s) = io s"
  by (simp_all add: filterAndPaginatePosts_def)

lemma fetchPosts_Response:
  "fetchPosts localeCompare (Response posts) s =
     s\<lparr>loading := False, io := io s @ [Fetch ''/api/posts''], allPosts := posts,
       categories_state := uniqueCategories localeCompare posts\<rparr>"
  by (simp add: fetchPosts_def fetchPosts_try_def)

lemma initSelectedCategories_fields:
  "allPosts (initSelectedCategories s) = allPosts s"
  "searchParams (initSelectedCategories s) = searchParams s"
  "currentPage (initSelectedCategories s) = currentPage s"
  "loading (initSelectedCategories s) = loading s"
  "categories_state (initSelectedCategories s) = categories_state s"
  "displayedPosts (initSelectedCategories s) = displayedPosts s"
  "io (initSelectedCategories s) = io s"
  by (simp_all add: initSelectedCategories_def split: option.split)

lemma initSelectedCategories_no_query:
  "selectedCategories (initSelectedCategories (initial_state [])) = []"
  by (simp add: initSelectedCategories_def initial_state_def)

lemma handleCategoryToggle_fields:
  "selectedCategories (handleCategoryToggle n s) =
     (if n \<in> set (selectedCategories s) then filter (\<lambda>i. i \<noteq> n) (selectedCategories s)
      else selectedCategories s @ [n])"
  "searchParams (handleCategoryToggle n s) =
     (if selectedCategories (handleCategoryToggle n s) = [] then []
      else [(''categories'', join (selectedCategories (handleCategoryToggle n s)) '','')])"
  "currentPage (handleCategoryToggle n s) = 1"
  "allPosts (handleCategoryToggle n s) = allPosts s"
  by (simp_all add: handleCategoryToggle_def includes_iff Let_def)

lemma toggle_twice_selected:
  "selectedCategories (handleCategoryToggle n (handleCategoryToggle n s)) =
     (if n \<in> set (selectedCategories s)
      then filter (\<lambda>i. i \<noteq> n) (selectedCategories s) @ [n]
      else selectedCategories s)"
  by (auto simp: handleCategoryToggle_fields filter_id_conv)

lemma handle_distinct:
  "distinct (selectedCategories s) \<Longrightarrow> distinct (selectedCategories (handle a s))"
  by (cases a) (simp_all add: handleCategoryToggle_fields handleClearFilters_def handleLoadMore_def)

lemma step_selected: "selectedCategories (step s a) = selectedCategories (handle a s)"
  by (simp add: step_def filterAndPaginatePosts_fields)

lemma run_Cons: "run s (a # actions) = run (step s a) actions"
  by (simp add: run_def)

lemma run_Nil: "run s [] = s"
  by (simp add: run_def)

lemma run_distinct:
  "distinct (selectedCategories s) \<Longrightarrow> distinct (selectedCategories (run s actions))"
  unfolding run_def
  by (induction actions arbitrary: s) (simp_all add: step_selected handle_distinct)

lemma mount_no_query_selected:
  "selectedCategories (mount localeCompare [] r) = []"
  by (cases r)
    (simp_all add: mount_def filterAndPaginatePosts_fields fetchPosts_def fetchPosts_try_def
      initSelectedCategories_def initial_state_def)

section \<open>Facts about the example data\<close>

lemma tech_selected_fields:
  "allPosts tech_selected = seven_tech_posts"
  "selectedCategories tech_selected = [''Tech'']"
  "displayedPosts tech_selected = paginate (filterPosts seven_tech_posts [''Tech'']) POSTS_PER_PAGE 1"
  by (simp_all add: tech_selected_def step_def mount_def filterAndPaginatePosts_fields
      handleCategoryToggle_fields fetchPosts_Response initSelectedCategories_fields
      initSelectedCategories_no_query)

lemma filter_seven_tech_posts: "filterPosts seven_tech_posts [''Tech''] = seven_tech_posts"
  by (simp add: filterPosts_def seven_tech_posts_def example_post_def)

lemma length_seven_tech_posts: "length seven_tech_posts = 7"
  by (simp add: seven_tech_posts_def)

lemma opened_with_a_b_fields:
  "selectedCategories opened_with_a_b = [''a'', ''b'']"
  "searchParams opened_with_a_b = [(''categories'', ''a,b'')]"
  by (simp_all add: opened_with_a_b_def initSelectedCategories_def initial_state_def)

lemma opened_with_a_a_selected: "selectedCategories opened_with_a_a = [''a'', ''a'']"
  by (simp add: opened_with_a_a_def mount_def filterAndPaginatePosts_fields fetchPosts_Response
      initSelectedCategories_def initial_state_def)

section \<open>Filter Engine\<close>

text \<open>
  C2: with a non-empty selection, the filter keeps exactly the posts that have at least
  one category whose name is selected: the output is the input with the other posts
  removed, so it is a subsequence of the input (the relative order is kept), and a post
  is in the output iff it is in the input and one of its category names is selected.
\<close>

theorem C2_filter_nonempty_selection:
  assumes "selected \<noteq> []"
  shows "filterPosts posts selected =
           filter (\<lambda>p. \<exists>c \<in> set (categories p). category_name c \<in> set selected) posts
         \<and> subseq (filterPosts posts selected) posts
         \<and> (\<forall>p. p \<in> set (filterPosts posts selected) \<longleftrightarrow>
                p \<in> set posts \<and>
                (\<exists>c \<in> set (categories p). category_name c \<in> set selected))"
proof -
  have eq: "filterPosts posts selected =
      filter (\<lambda>p. \<exists>c \<in> set (categories p). category_name c \<in> set selected) posts"
    using assms by (simp add: filterPosts_def some_iff includes_iff)
  show ?thesis
    unfolding eq by auto
qed

theorem C2_filter_nonempty_selection_witness:
  "[''Tech''] \<noteq> []
   \<and> filterPosts scenario_posts [''Tech''] =
       [example_post ''1'' [\<lparr>category_id = ''a'', category_name = ''Tech''\<rparr>],
        example_post ''2'' [\<lparr>category_id = ''b'', category_name = ''Tech''\<rparr>]]
   \<and> subseq (filterPosts scenario_posts [''Tech'']) scenario_posts"
proof -
  have chosen: "[''Tech''] \<noteq> []"
    by simp
  have result: "filterPosts scenario_posts [''Tech''] =
       [example_post ''1'' [\<lparr>category_id = ''a'', category_name = ''Tech''\<rparr>],
        example_post ''2'' [\<lparr>category_id = ''b'', category_name = ''Tech''\<rparr>]]"
    by (simp add: filterPosts_def scenario_posts_def example_post_def)
  from C2_filter_nonempty_selection [OF chosen, of scenario_posts]
  have "subseq (filterPosts scenario_posts [''Tech'']) scenario_posts"
    by (rule conjunct2 [THEN conjunct1])
  with chosen result show ?thesis by (intro conjI)
qed

text \<open>
  C3: with an empty selection the filter returns the collection itself, unchanged and
  in the same order.
\<close>

theorem C3_filter_empty_selection: "filterPosts posts [] = posts"
  by (simp add: filterPosts_def)

section \<open>Paginator\<close>

text \<open>
  C6: for every page size and every page number n from 1 on, the page is the first
  pageSize * n posts (the whole collection if it is shorter), the page for n is a prefix
  of the page for n + 1, and paginating a page again gives the same page.
\<close>

theorem C6_paginate_prefix_idempotent:
  assumes "1 \<le> n"
  shows "paginate posts pageSize n = take (pageSize * n) posts
         \<and> (length posts \<le> pageSize * n \<longrightarrow> paginate posts pageSize n = posts)
         \<and> prefix (paginate posts pageSize n) (paginate posts pageSize (n + 1))
         \<and> paginate (paginate posts pageSize n) pageSize n = paginate posts pageSize n"
proof -
  have "prefix (take (n * pageSize) posts) (take ((n + 1) * pageSize) posts)"
    by (metis take_is_prefix take_take min_def le_add1 mult_le_mono1)
  then show ?thesis
    by (simp add: paginate_take mult.commute)
qed

theorem C6_paginate_prefix_idempotent_witness:
  "(1::nat) \<le> 1
   \<and> paginate (filterPosts scenario_posts [''Tech'']) 1 1
       = [example_post ''1'' [\<lparr>category_id = ''a'', category_name = ''Tech''\<rparr>]]
   \<and> prefix (paginate (filterPosts scenario_posts [''Tech'']) 1 1)
        (paginate (filterPosts scenario_posts [''Tech'']) 1 (1 + 1))
   \<and> paginate (paginate (filterPosts scenario_posts [''Tech'']) 1 1) 1 1
       = paginate (filterPosts scenario_posts [''Tech'']) 1 1"
proof -
  have page: "(1::nat) \<le> 1"
    by simp
  have filtered: "filterPosts scenario_posts [''Tech''] =
       [example_post ''1'' [\<lparr>category_id = ''a'', category_name = ''Tech''\<rparr>],
        example_post ''2'' [\<lparr>category_id = ''b'', category_name = ''Tech''\<rparr>]]"
    by (simp add: filterPosts_def scenario_posts_def example_post_def)
  note inst = C6_paginate_prefix_idempotent [OF page,
      where posts = "filterPosts scenario_posts [''Tech'']" and pageSize = 1]
  from inst have first: "paginate (filterPosts scenario_posts [''Tech'']) 1 1
      = take (1 * 1) (filterPosts scenario_posts [''Tech''])"
    by (rule conjunct1)
  have one: "paginate (filterPosts scenario_posts [''Tech'']) 1 1
       = [example_post ''1'' [\<lparr>category_id = ''a'', category_name = ''Tech''\<rparr>]]"
    by (simp only: first) (simp add: filtered)
  from inst have "prefix (paginate (filterPosts scenario_posts [''Tech'']) 1 1)
        (paginate (filterPosts scenario_posts [''Tech'']) 1 (1 + 1))"
    and "paginate (paginate (filterPosts scenario_posts [''Tech'']) 1 1) 1 1
       = paginate (filterPosts scenario_posts [''Tech'']) 1 1"
    by (rule conjunct2 [THEN conjunct2, THEN conjunct1],
        rule conjunct2 [THEN conjunct2, THEN conjunct2])
  with page one show ?thesis by (intro conjI)
qed

section \<open>The flag for more posts\<close>

text \<open>
  C1: the flag says that there are more posts iff fewer posts are shown than match the
  filter by category name. The count of lines 190 to 199 compares the selected names
  with the categories' identifiers instead. With seven posts in the category Tech, whose
  identifier is c1, and Tech selected, six of the seven matching posts are shown, the
  count is 0 and the flag is false.
\<close>

theorem C1_hasMore_counts_by_identifier:
  "length (displayedPosts tech_selected) = 6
   \<and> length (filterPosts (allPosts tech_selected) (selectedCategories tech_selected)) = 7
   \<and> getFilteredPostsCount tech_selected = 0
   \<and> \<not> hasMorePosts tech_selected"
proof -
  have shown: "length (displayedPosts tech_selected) = 6"
    by (simp add: tech_selected_fields filter_seven_tech_posts paginate_take
        length_seven_tech_posts POSTS_PER_PAGE_def)
  have matching: "length (filterPosts (allPosts tech_selected) (selectedCategories tech_selected)) = 7"
    by (simp add: tech_selected_fields filter_seven_tech_posts length_seven_tech_posts)
  have counted: "getFilteredPostsCount tech_selected = 0"
    by (simp add: getFilteredPostsCount_def tech_selected_fields seven_tech_posts_def
        example_post_def)
  from shown counted have "\<not> hasMorePosts tech_selected"
    by (simp add: hasMorePosts_def)
  with shown matching counted show ?thesis by (intro conjI)
qed

section \<open>Category Aggregator\<close>

text \<open>
  C4: in the aggregated list every category name occurs once; the names are those of the
  category occurrences of the posts; each aggregate has its name as identifier, lists
  every original identifier used under that name exactly once, and counts the occurrences
  of the name over all posts. Two posts with one category each, of the same name under
  two different identifiers, give a single aggregate of count 2 with both identifiers.
  The list is sorted by name in the order of \<^verbatim>\<open>localeCompare\<close>, for a comparator that is
  total and transitive.
\<close>

theorem C4_aggregate_by_name:
  "distinct (map category_name (uniqueCategories localeCompare posts))
   \<and> set (map category_name (uniqueCategories localeCompare posts))
       = category_name ` set (concat (map categories posts))
   \<and> (\<forall>a \<in> set (uniqueCategories localeCompare posts).
         category_id a = category_name a
         \<and> distinct (ids a)
         \<and> set (ids a) = {category_id c | c.
               c \<in> set (concat (map categories posts)) \<and> category_name c = category_name a}
         \<and> count a = length (filter (\<lambda>c. category_name c = category_name a)
                                (concat (map categories posts))))
   \<and> (i1 \<noteq> i2 \<longrightarrow>
        uniqueCategories localeCompare
          [p1\<lparr>categories := [\<lparr>category_id = i1, category_name = n\<rparr>]\<rparr>,
           p2\<lparr>categories := [\<lparr>category_id = i2, category_name = n\<rparr>]\<rparr>]
        = [\<lparr>category_id = n, category_name = n, count = 2, ids = [i1, i2]\<rparr>])
   \<and> ((\<forall>x y. localeCompare x y \<le> 0 \<or> localeCompare y x \<le> 0)
        \<and> (\<forall>x y z. localeCompare x y \<le> 0 \<and> localeCompare y z \<le> 0 \<longrightarrow> localeCompare x z \<le> 0)
        \<longrightarrow> sorted_wrt (\<lambda>a b. localeCompare (category_name a) (category_name b) \<le> 0)
              (uniqueCategories localeCompare posts))"
proof -
  let ?occs = "concat (map categories posts)"
  let ?m = "foldl addCategory [] ?occs"
  let ?cmp = "\<lambda>a b. localeCompare (category_name a) (category_name b)"
  have result: "uniqueCategories localeCompare posts = sort_js (map snd ?m) ?cmp"
    by (simp add: uniqueCategories_def buildCategoryMap_concat)
  have dist: "distinct (map fst ?m)"
    by (rule distinct_foldl_addCategory)
  have entry: "category_name e = k \<and> category_id e = k \<and> distinct (ids e)
      \<and> set (ids e) = {category_id c | c. c \<in> set ?occs \<and> category_name c = k}
      \<and> count e = length (filter (\<lambda>c. category_name c = k) ?occs)"
    if "(k, e) \<in> set ?m" for k e
    using that dist by (intro entry_foldl_addCategory) simp
  have names: "map category_name (map snd ?m) = map fst ?m"
    using entry by (auto simp: list_eq_iff_nth_eq dest!: nth_mem [where xs = ?m])
  have "distinct (map category_name (map snd ?m))"
    by (simp only: names dist)
  then have c1: "distinct (map category_name (uniqueCategories localeCompare posts))"
    by (simp only: result distinct_sort_js)
  have "set (map category_name (uniqueCategories localeCompare posts))
      = set (map category_name (map snd ?m))"
    by (simp only: result set_map set_sort_js)
  also have "\<dots> = set (map fst ?m)"
    by (simp only: names)
  also have "\<dots> = category_name ` set ?occs"
    by (simp add: keys_foldl_addCategory)
  finally have c2: "set (map category_name (uniqueCategories localeCompare posts))
      = category_name ` set ?occs" .
  have c3: "\<forall>a \<in> set (uniqueCategories localeCompare posts).
         category_id a = category_name a
         \<and> distinct (ids a)
         \<and> set (ids a) = {category_id c | c. c \<in> set ?occs \<and> category_name c = category_name a}
         \<and> count a = length (filter (\<lambda>c. category_name c = category_name a) ?occs)"
  proof
    fix a assume "a \<in> set (uniqueCategories localeCompare posts)"
    then obtain k where "(k, a) \<in> set ?m"
      by (auto simp: result set_sort_js)
    from entry [OF this] show "category_id a = category_name a
         \<and> distinct (ids a)
         \<and> set (ids a) = {category_id c | c. c \<in> set ?occs \<and> category_name c = category_name a}
         \<and> count a = length (filter (\<lambda>c. category_name c = category_name a) ?occs)"
      by simp
  qed
  have c4: "i1 \<noteq> i2 \<longrightarrow>
        uniqueCategories localeCompare
          [p1\<lparr>categories := [\<lparr>category_id = i1, category_name = n\<rparr>]\<rparr>,
           p2\<lparr>categories := [\<lparr>category_id = i2, category_name = n\<rparr>]\<rparr>]
        = [\<lparr>category_id = n, category_name = n, count = 2, ids = [i1, i2]\<rparr>]"
    by (simp add: uniqueCategories_def buildCategoryMap_def addCategory_def sort_js_def)
  have c5: "(\<forall>x y. localeCompare x y \<le> 0 \<or> localeCompare y x \<le> 0)
        \<and> (\<forall>x y z. localeCompare x y \<le> 0 \<and> localeCompare y z \<le> 0 \<longrightarrow> localeCompare x z \<le> 0)
        \<longrightarrow> sorted_wrt (\<lambda>a b. ?cmp a b \<le> 0) (uniqueCategories localeCompare posts)"
  proof
    assume c: "(\<forall>x y. localeCompare x y \<le> 0 \<or> localeCompare y x \<le> 0)
        \<and> (\<forall>x y z. localeCompare x y \<le> 0 \<and> localeCompare y z \<le> 0 \<longrightarrow> localeCompare x z \<le> 0)"
    show "sorted_wrt (\<lambda>a b. ?cmp a b \<le> 0) (uniqueCategories localeCompare posts)"
      unfolding result
    proof (rule sorted_sort_js)
      show "?cmp a b \<le> 0 \<or> ?cmp b a \<le> 0" for a b using c by blast
      show "?cmp a b \<le> 0 \<Longrightarrow> ?cmp b d \<le> 0 \<Longrightarrow> ?cmp a d \<le> 0" for a b d using c by blast
    qed
  qed
  show ?thesis using c1 c2 c3 c4 c5 by (intro conjI)
qed

theorem C4_aggregate_by_name_witness:
  "uniqueCategories codeUnitCompare scenario_posts =
     [\<lparr>category_id = ''Life'', category_name = ''Life'', count = 1, ids = [''c'']\<rparr>,
      \<lparr>category_id = ''Tech'', category_name = ''Tech'', count = 2, ids = [''a'', ''b'']\<rparr>]
   \<and> sorted_wrt (\<lambda>a b. codeUnitCompare (category_name a) (category_name b) \<le> 0)
        (uniqueCategories codeUnitCompare scenario_posts)
   \<and> ''a'' \<noteq> ''b''
   \<and> uniqueCategories codeUnitCompare
        [(example_post ''1'' [])\<lparr>categories := [\<lparr>category_id = ''a'', category_name = ''Tech''\<rparr>]\<rparr>,
         (example_post ''2'' [])\<lparr>categories := [\<lparr>category_id = ''b'', category_name = ''Tech''\<rparr>]\<rparr>]
      = [\<lparr>category_id = ''Tech'', category_name = ''Tech'', count = 2, ids = [''a'', ''b'']\<rparr>]"
proof -
  have consistent: "(\<forall>x y. codeUnitCompare x y \<le> 0 \<or> codeUnitCompare y x \<le> 0)
      \<and> (\<forall>x y z. codeUnitCompare x y \<le> 0 \<and> codeUnitCompare y z \<le> 0 \<longrightarrow> codeUnitCompare x z \<le> 0)"
    using codeUnitCompare_total codeUnitCompare_trans by blast
  have ne: "''a'' \<noteq> ''b''" by simp
  note inst = C4_aggregate_by_name [where localeCompare = codeUnitCompare and posts = scenario_posts
      and ?i1.0 = "''a''" and ?i2.0 = "''b''" and n = "''Tech''"
      and ?p1.0 = "example_post ''1'' []" and ?p2.0 = "example_post ''2'' []"]
  note two = inst [THEN conjunct2, THEN conjunct2, THEN conjunct2, THEN conjunct1, THEN mp, OF ne]
  note sorted = inst [THEN conjunct2, THEN conjunct2, THEN conjunct2, THEN conjunct2, THEN mp,
      OF consistent]
  show ?thesis
    using scenario_aggregation sorted ne two by (intro conjI)
qed

text \<open>
  C5: the counts of the aggregated categories add up to the number of category
  occurrences, the sum of the lengths of the posts' category lists; a post with no
  category changes nothing.
\<close>

theorem C5_counts_sum_to_pairs:
  "sum_list (map count (uniqueCategories localeCompare posts))
     = sum_list (map (\<lambda>p. length (categories p)) posts)
   \<and> (categories p = [] \<longrightarrow>
        uniqueCategories localeCompare (before @ p # after)
        = uniqueCategories localeCompare (before @ after))"
proof -
  have "sum_list (map count (uniqueCategories localeCompare posts))
      = sum_list (map (\<lambda>p. count (snd p)) (foldl addCategory [] (concat (map categories posts))))"
    by (simp add: uniqueCategories_def buildCategoryMap_concat sum_sort_js comp_def)
  also have "\<dots> = length (concat (map categories posts))"
    by (rule sum_foldl_addCategory)
  also have "\<dots> = sum_list (map (\<lambda>p. length (categories p)) posts)"
    by (simp add: length_concat comp_def)
  finally show ?thesis
    by (simp add: uniqueCategories_def buildCategoryMap_concat)
qed

theorem C5_counts_sum_to_pairs_witness:
  "sum_list (map count (uniqueCategories codeUnitCompare (scenario_posts @ [example_post ''4'' []])))
     = 3
   \<and> categories (example_post ''4'' []) = []
   \<and> uniqueCategories codeUnitCompare (scenario_posts @ example_post ''4'' [] # [])
     = uniqueCategories codeUnitCompare (scenario_posts @ [])"
proof -
  have empty: "categories (example_post ''4'' []) = []"
    by (simp add: example_post_def)
  have pairs: "sum_list (map (\<lambda>p. length (categories p)) (scenario_posts @ [example_post ''4'' []])) = 3"
    by (simp add: scenario_posts_def example_post_def)
  note inst = C5_counts_sum_to_pairs [where localeCompare = codeUnitCompare
      and posts = "scenario_posts @ [example_post ''4'' []]" and p = "example_post ''4'' []"
      and before = scenario_posts and after = "[]"]
  from inst have "sum_list (map count (uniqueCategories codeUnitCompare
      (scenario_posts @ [example_post ''4'' []])))
      = sum_list (map (\<lambda>p. length (categories p)) (scenario_posts @ [example_post ''4'' []]))"
    by (rule conjunct1)
  then have total: "sum_list (map count (uniqueCategories codeUnitCompare
      (scenario_posts @ [example_post ''4'' []]))) = 3"
    by (rule trans) (rule pairs)
  from inst empty have "uniqueCategories codeUnitCompare (scenario_posts @ example_post ''4'' [] # [])
     = uniqueCategories codeUnitCompare (scenario_posts @ [])"
    by blast
  with total empty show ?thesis by (intro conjI)
qed

section \<open>Selection state\<close>

text \<open>
  C7, as stated, fails for the URL: with a and b selected and the parameter a,b,
  toggling a twice leaves the parameter b,a.
\<close>

theorem C7_toggle_twice_url_counterexample:
  "map_of (searchParams (handleCategoryToggle ''a'' (handleCategoryToggle ''a'' opened_with_a_b)))
     ''categories'' = Some ''b,a''
   \<and> map_of (searchParams opened_with_a_b) ''categories'' = Some ''a,b''
   \<and> map_of (searchParams (handleCategoryToggle ''a'' (handleCategoryToggle ''a'' opened_with_a_b)))
        ''categories''
      \<noteq> map_of (searchParams opened_with_a_b) ''categories''"
  by (simp add: handleCategoryToggle_fields(2) toggle_twice_selected opened_with_a_b_fields)

text \<open>
  C7, amended: toggling a name twice gives back the same set of selected names. If the
  name was not selected, the selection list is the original one and, when the categories
  parameter mirrored the selection before (the comma-joined names, or no parameter for
  the empty selection), the parameter is back in its original state. If the name was
  selected, it is moved to the end of the selection, and the parameter is the
  comma-joined names in that new order.
\<close>

theorem C7_toggle_twice:
  "set (selectedCategories (handleCategoryToggle n (handleCategoryToggle n s)))
     = set (selectedCategories s)
   \<and> (n \<notin> set (selectedCategories s) \<longrightarrow>
        selectedCategories (handleCategoryToggle n (handleCategoryToggle n s))
          = selectedCategories s
        \<and> (map_of (searchParams s) ''categories''
             = (if selectedCategories s = [] then None
                else Some (join (selectedCategories s) '',''))
           \<longrightarrow> map_of (searchParams (handleCategoryToggle n (handleCategoryToggle n s)))
                 ''categories''
               = map_of (searchParams s) ''categories''))
   \<and> (n \<in> set (selectedCategories s) \<longrightarrow>
        selectedCategories (handleCategoryToggle n (handleCategoryToggle n s))
          = filter (\<lambda>i. i \<noteq> n) (selectedCategories s) @ [n]
        \<and> map_of (searchParams (handleCategoryToggle n (handleCategoryToggle n s)))
             ''categories''
           = Some (join (filter (\<lambda>i. i \<noteq> n) (selectedCategories s) @ [n]) '',''))"
proof -
  let ?s2 = "handleCategoryToggle n (handleCategoryToggle n s)"
  have sel: "selectedCategories ?s2 =
     (if n \<in> set (selectedCategories s)
      then filter (\<lambda>i. i \<noteq> n) (selectedCategories s) @ [n]
      else selectedCategories s)"
    by (rule toggle_twice_selected)
  have url: "map_of (searchParams ?s2) ''categories'' =
     (if selectedCategories ?s2 = [] then None
      else Some (join (selectedCategories ?s2) '',''))"
    by (simp add: handleCategoryToggle_fields(2))
  have c1: "set (selectedCategories ?s2) = set (selectedCategories s)"
    unfolding sel by auto
  have c2: "n \<notin> set (selectedCategories s) \<longrightarrow>
        selectedCategories ?s2 = selectedCategories s
        \<and> (map_of (searchParams s) ''categories''
             = (if selectedCategories s = [] then None
                else Some (join (selectedCategories s) '',''))
           \<longrightarrow> map_of (searchParams ?s2) ''categories'' = map_of (searchParams s) ''categories'')"
    unfolding url unfolding sel by simp
  have c3: "n \<in> set (selectedCategories s) \<longrightarrow>
        selectedCategories ?s2 = filter (\<lambda>i. i \<noteq> n) (selectedCategories s) @ [n]
        \<and> map_of (searchParams ?s2) ''categories''
           = Some (join (filter (\<lambda>i. i \<noteq> n) (selectedCategories s) @ [n]) '','')"
    unfolding url unfolding sel by simp
  show ?thesis using c1 c2 c3 by (intro conjI)
qed

theorem C7_toggle_twice_witness:
  "''c'' \<notin> set (selectedCategories opened_with_a_b)
   \<and> selectedCategories (handleCategoryToggle ''c'' (handleCategoryToggle ''c'' opened_with_a_b))
       = [''a'', ''b'']
   \<and> map_of (searchParams (handleCategoryToggle ''c'' (handleCategoryToggle ''c'' opened_with_a_b)))
        ''categories'' = Some ''a,b''
   \<and> ''a'' \<in> set (selectedCategories opened_with_a_b)
   \<and> selectedCategories (handleCategoryToggle ''a'' (handleCategoryToggle ''a'' opened_with_a_b))
       = [''b'', ''a'']
   \<and> set (selectedCategories (handleCategoryToggle ''a'' (handleCategoryToggle ''a'' opened_with_a_b)))
       = {''a'', ''b''}"
proof -
  have absent: "''c'' \<notin> set (selectedCategories opened_with_a_b)"
    and present: "''a'' \<in> set (selectedCategories opened_with_a_b)"
    and mirrors: "map_of (searchParams opened_with_a_b) ''categories''
      = (if selectedCategories opened_with_a_b = [] then None
         else Some (join (selectedCategories opened_with_a_b) '',''))"
    by (simp_all add: opened_with_a_b_fields)
  note c = C7_toggle_twice [where n = "''c''" and s = opened_with_a_b]
  note a = C7_toggle_twice [where n = "''a''" and s = opened_with_a_b]
  from c absent mirrors
  have "selectedCategories (handleCategoryToggle ''c'' (handleCategoryToggle ''c'' opened_with_a_b))
       = selectedCategories opened_with_a_b"
    and "map_of (searchParams (handleCategoryToggle ''c'' (handleCategoryToggle ''c'' opened_with_a_b)))
        ''categories'' = map_of (searchParams opened_with_a_b) ''categories''"
    by blast+
  moreover from a present
  have "selectedCategories (handleCategoryToggle ''a'' (handleCategoryToggle ''a'' opened_with_a_b))
       = filter (\<lambda>i. i \<noteq> ''a'') (selectedCategories opened_with_a_b) @ [''a'']"
    and "set (selectedCategories (handleCategoryToggle ''a'' (handleCategoryToggle ''a'' opened_with_a_b)))
       = set (selectedCategories opened_with_a_b)"
    by blast+
  ultimately show ?thesis
    using absent present by (simp add: opened_with_a_b_fields insert_commute)
qed

text \<open>
  C10: from an empty selection, after any sequence of toggle, clear and load-more
  actions the selection list has no duplicate: toggling a selected name removes every
  occurrence of it, toggling a name that is not selected appends it once. A selection
  seeded from a URL parameter with a duplicate name keeps the duplicate: opened with
  a,a the selection is a, a, and it is a, a, b after toggling b and loading more.
\<close>

theorem C10_selection_has_no_duplicates:
  "(selectedCategories s = [] \<longrightarrow> distinct (selectedCategories (run s actions)))
   \<and> (n \<in> set (selectedCategories s) \<longrightarrow>
        n \<notin> set (selectedCategories (handleCategoryToggle n s)))
   \<and> (n \<notin> set (selectedCategories s) \<longrightarrow>
        selectedCategories (handleCategoryToggle n s) = selectedCategories s @ [n])
   \<and> selectedCategories opened_with_a_a = [''a'', ''a'']
   \<and> \<not> distinct (selectedCategories (run opened_with_a_a [Toggle ''b'', LoadMore]))"
proof -
  have c1: "selectedCategories s = [] \<longrightarrow> distinct (selectedCategories (run s actions))"
    by (simp add: run_distinct)
  have c2: "n \<in> set (selectedCategories s) \<longrightarrow>
        n \<notin> set (selectedCategories (handleCategoryToggle n s))"
    by (simp add: handleCategoryToggle_fields)
  have c3: "n \<notin> set (selectedCategories s) \<longrightarrow>
        selectedCategories (handleCategoryToggle n s) = selectedCategories s @ [n]"
    by (simp add: handleCategoryToggle_fields)
  have "selectedCategories (run opened_with_a_a [Toggle ''b'', LoadMore]) = [''a'', ''a'', ''b'']"
    by (simp add: run_Cons run_Nil step_selected handleCategoryToggle_fields handleLoadMore_def
        opened_with_a_a_selected)
  then have c5: "\<not> distinct (selectedCategories (run opened_with_a_a [Toggle ''b'', LoadMore]))"
    by simp
  show ?thesis using c1 c2 c3 opened_with_a_a_selected c5 by (intro conjI)
qed

theorem C10_selection_has_no_duplicates_witness:
  "selectedCategories (mount codeUnitCompare [] (Response scenario_posts)) = []
   \<and> distinct (selectedCategories (run (mount codeUnitCompare [] (Response scenario_posts))
        [Toggle ''Tech'', Toggle ''Life'', LoadMore, Toggle ''Tech'', Clear, Toggle ''Life'']))
   \<and> ''Tech'' \<in> set (selectedCategories (handleCategoryToggle ''Tech''
        (mount codeUnitCompare [] (Response scenario_posts))))
   \<and> ''Tech'' \<notin> set (selectedCategories (handleCategoryToggle ''Tech'' (handleCategoryToggle ''Tech''
        (mount codeUnitCompare [] (Response scenario_posts)))))
   \<and> ''Tech'' \<notin> set (selectedCategories (mount codeUnitCompare [] (Response scenario_posts)))
   \<and> selectedCategories (handleCategoryToggle ''Tech''
        (mount codeUnitCompare [] (Response scenario_posts))) = [''Tech'']"
proof -
  let ?s = "mount codeUnitCompare [] (Response scenario_posts)"
  have empty: "selectedCategories ?s = []"
    by (rule mount_no_query_selected)
  then have absent: "''Tech'' \<notin> set (selectedCategories ?s)"
    by simp
  note start = C10_selection_has_no_duplicates [where s = ?s and n = "''Tech''"
      and actions = "[Toggle ''Tech'', Toggle ''Life'', LoadMore, Toggle ''Tech'', Clear, Toggle ''Life'']"]
  from start empty have d: "distinct (selectedCategories (run ?s
      [Toggle ''Tech'', Toggle ''Life'', LoadMore, Toggle ''Tech'', Clear, Toggle ''Life'']))"
    by blast
  from start absent have added: "selectedCategories (handleCategoryToggle ''Tech'' ?s)
      = selectedCategories ?s @ [''Tech'']"
    by blast
  with empty have one: "selectedCategories (handleCategoryToggle ''Tech'' ?s) = [''Tech'']"
    by simp
  then have present: "''Tech'' \<in> set (selectedCategories (handleCategoryToggle ''Tech'' ?s))"
    by simp
  note again = C10_selection_has_no_duplicates [where s = "handleCategoryToggle ''Tech'' ?s"
      and n = "''Tech''" and actions = "[]"]
  from again present
  have removed: "''Tech'' \<notin> set (selectedCategories (handleCategoryToggle ''Tech''
      (handleCategoryToggle ''Tech'' ?s)))"
    by blast
  show ?thesis using empty d present removed absent one by (intro conjI)
qed

section \<open>Post detail\<close>

text \<open>
  C8: when the posts are fetched and none of them has the identifier of the route, the
  detail view is neither loading nor showing a post: it is the not-found view, whose
  button leads back to the list at the root path.
\<close>

theorem C8_unknown_id_not_found:
  assumes "\<forall>p \<in> set posts. Some (post_id p) \<noteq> id_param"
  shows "detail_post (fetchPost id_param (Response posts) s) = None
         \<and> \<not> detail_loading (fetchPost id_param (Response posts) s)
         \<and> PostDetail (fetchPost id_param (Response posts) s) = NotFoundView ''/''"
proof -
  from assms have "find (\<lambda>p. Some (post_id p) = id_param) posts = None"
    by (simp add: find_None_iff)
  then show ?thesis
    by (simp add: fetchPost_def fetchPost_try_def PostDetail_def)
qed

theorem C8_unknown_id_not_found_witness:
  "PostDetail (fetchPost (Some ''9'') (Response scenario_posts)
     \<lparr>detail_post = None, detail_loading = True\<rparr>) = NotFoundView ''/''
   \<and> PostDetail (fetchPost (Some ''2'') (Response scenario_posts)
     \<lparr>detail_post = None, detail_loading = True\<rparr>)
     = PostView ''/'' (example_post ''2'' [\<lparr>category_id = ''b'', category_name = ''Tech''\<rparr>])"
proof -
  have unknown: "\<forall>p \<in> set scenario_posts. Some (post_id p) \<noteq> Some ''9''"
    by (simp add: scenario_posts_def example_post_def)
  have known: "PostDetail (fetchPost (Some ''2'') (Response scenario_posts)
     \<lparr>detail_post = None, detail_loading = True\<rparr>)
     = PostView ''/'' (example_post ''2'' [\<lparr>category_id = ''b'', category_name = ''Tech''\<rparr>])"
    by (simp add: fetchPost_def fetchPost_try_def PostDetail_def scenario_posts_def
        example_post_def)
  from C8_unknown_id_not_found [OF unknown, of "\<lparr>detail_post = None, detail_loading = True\<rparr>"] known
  show ?thesis by (intro conjI) (rule conjunct2 [THEN conjunct2], assumption+)
qed

section \<open>Failure of the collection fetch\<close>

text \<open>
  C9: when the request fails or its body does not parse, the body of try throws, the
  error is caught and logged, and one request has been sent, no second one; the loading
  flag is cleared and the posts, the categories and the rest of the state are unchanged.
  On the first fetch the posts and the categories stay empty and the list shows the
  empty state.
\<close>

theorem C9_fetch_failure:
  assumes "r = NetworkFailure \<or> r = ParseFailure"
  shows "(\<exists>e. fetchPosts_try localeCompare r
                (s\<lparr>loading := True, io := io s @ [Fetch ''/api/posts'']\<rparr>) = Inl e
              \<and> io (fetchPosts localeCompare r s)
                  = io s @ [Fetch ''/api/posts'', ConsoleError ''Error fetching posts:'' e])
         \<and> \<not> loading (fetchPosts localeCompare r s)
         \<and> allPosts (fetchPosts localeCompare r s) = allPosts s
         \<and> categories_state (fetchPosts localeCompare r s) = categories_state s
         \<and> displayedPosts (fetchPosts localeCompare r s) = displayedPosts s
         \<and> selectedCategories (fetchPosts localeCompare r s) = selectedCategories s
         \<and> currentPage (fetchPosts localeCompare r s) = currentPage s
         \<and> searchParams (fetchPosts localeCompare r s) = searchParams s
         \<and> allPosts (mount localeCompare query r) = []
         \<and> categories_state (mount localeCompare query r) = []
         \<and> App_PostList (mount localeCompare query r) = [EmptyState]"
proof -
  from assms have fields:
    "\<exists>e. fetchPosts_try localeCompare r
                (s\<lparr>loading := True, io := io s @ [Fetch ''/api/posts'']\<rparr>) = Inl e
              \<and> io (fetchPosts localeCompare r s)
                  = io s @ [Fetch ''/api/posts'', ConsoleError ''Error fetching posts:'' e]"
    "\<not> loading (fetchPosts localeCompare r s)"
    "allPosts (fetchPosts localeCompare r s) = allPosts s"
    "categories_state (fetchPosts localeCompare r s) = categories_state s"
    "displayedPosts (fetchPosts localeCompare r s) = displayedPosts s"
    "selectedCategories (fetchPosts localeCompare r s) = selectedCategories s"
    "currentPage (fetchPosts localeCompare r s) = currentPage s"
    "searchParams (fetchPosts localeCompare r s) = searchParams s"
    for s
    by (auto simp: fetchPosts_def fetchPosts_try_def)
  have posts: "allPosts (mount localeCompare query r) = []"
    and cats: "categories_state (mount localeCompare query r) = []"
    and idle: "\<not> loading (mount localeCompare query r)"
    by (simp_all add: mount_def filterAndPaginatePosts_fields fields
        initSelectedCategories_fields initial_state_def)
  have "displayedPosts (mount localeCompare query r) = []"
    by (simp add: mount_def filterAndPaginatePosts_fields fields
        initSelectedCategories_fields initial_state_def filterPosts_def paginate_take)
  with idle have view: "App_PostList (mount localeCompare query r) = [EmptyState]"
    by (simp add: App_PostList_def PostList_def)
  show ?thesis using fields [of s] posts cats view by (intro conjI)
qed

theorem C9_fetch_failure_witness:
  "io (fetchPosts codeUnitCompare ParseFailure (initial_state []))
     = [Fetch ''/api/posts'', ConsoleError ''Error fetching posts:'' SyntaxError]
   \<and> \<not> loading (fetchPosts codeUnitCompare ParseFailure (initial_state []))
   \<and> allPosts (fetchPosts codeUnitCompare ParseFailure (initial_state [])) = []
   \<and> categories_state (fetchPosts codeUnitCompare ParseFailure (initial_state [])) = []
   \<and> App_PostList (mount codeUnitCompare [] ParseFailure) = [EmptyState]"
proof -
  have failure: "ParseFailure = NetworkFailure \<or> ParseFailure = ParseFailure"
    by simp
  note inst = C9_fetch_failure [OF failure, where localeCompare = codeUnitCompare
      and s = "initial_state []" and query = "[]"]
  have log: "io (fetchPosts codeUnitCompare ParseFailure (initial_state []))
     = [Fetch ''/api/posts'', ConsoleError ''Error fetching posts:'' SyntaxError]"
    by (simp add: fetchPosts_def fetchPosts_try_def initial_state_def)
  from inst have "\<not> loading (fetchPosts codeUnitCompare ParseFailure (initial_state []))"
    and "allPosts (fetchPosts codeUnitCompare ParseFailure (initial_state []))
      = allPosts (initial_state [])"
    and "categories_state (fetchPosts codeUnitCompare ParseFailure (initial_state []))
      = categories_state (initial_state [])"
    and "App_PostList (mount codeUnitCompare [] ParseFailure) = [EmptyState]"
    by blast+
  with log show ?thesis
    by (simp add: initial_state_def)
qed

end
